theory Spec2Isabelle
  imports Main
begin

section \<open>Data model of server.js\<close>

text \<open>
  The streaming server keeps its state in module-level variables and in the closures
  created per socket connection. Every handler of the source (Express routes, socket.io
  events, Rx callbacks) is modelled as a function from the server state to the server
  state; an exception that leaves a handler is returned as a value.

  Values the server only passes on are kept abstract: a snapshot (one tick of the
  animation) is a number, a binary payload is a list of numbers.
\<close>

type_synonym conn_id = string
type_synonym snapshot = nat
type_synonym blob = "nat list"

text \<open>The object returned by \<^verbatim>\<open>driver.fetchData\<close>, as far as server.js reads it.\<close>

record vbos =
  compressed :: "string \<rightharpoonup> blob"
  bufferByteLengths :: "string \<rightharpoonup> nat"
  elements :: "string \<rightharpoonup> nat"

text \<open>The value \<^verbatim>\<open>img\<close> emits (lines 141-148): width and height are the constant 512.\<close>

record texture =
  buffer :: blob
  bytes :: nat
  width :: nat
  height :: nat

text \<open>The \<^verbatim>\<open>lengths\<close> object sent with \<^verbatim>\<open>vbo_update\<close> (lines 282-288).\<close>

record lengths =
  l_bufferByteLengths :: "string \<rightharpoonup> nat"
  l_elements :: "string \<rightharpoonup> nat"
  l_colorMap :: "nat \<times> nat \<times> nat"

text \<open>\<^verbatim>\<open>req.query\<close>: each parameter may be missing (\<^verbatim>\<open>undefined\<close>).\<close>

record query =
  q_buffer :: "string option"
  q_id :: "string option"
  q_texture :: "string option"

text \<open>
  A JavaScript property access \<^verbatim>\<open>obj[k]\<close> converts the key to a string, so a missing
  query parameter reads the property named "undefined".
\<close>

definition prop_key :: "string option \<Rightarrow> string" where
  "prop_key k = (case k of None \<Rightarrow> ''undefined'' | Some s \<Rightarrow> s)"

text \<open>
  \<^verbatim>\<open>lastCompressedVbos\<close>, \<^verbatim>\<open>finishBufferTransfers\<close> and the buffer sets are plain
  objects (lines 62, 63, 198). Reading \<^verbatim>\<open>obj[k]\<close> gives the object's own property \<open>k\<close>
  if it has one, else the member \<open>k\<close> of \<^verbatim>\<open>Object.prototype\<close>, which every plain object
  inherits, else \<^verbatim>\<open>undefined\<close>. The inherited members are those of the language:
  functions, but for \<^verbatim>\<open>__proto__\<close>, which reads as the prototype object itself.
\<close>

definition object_prototype :: "string list" where
  "object_prototype =
     [''constructor'', ''toString'', ''toLocaleString'', ''valueOf'', ''hasOwnProperty'',
      ''isPrototypeOf'', ''propertyIsEnumerable'', ''__defineGetter__'', ''__defineSetter__'',
      ''__lookupGetter__'', ''__lookupSetter__'', ''__proto__'']"

datatype 'a property = Own 'a | Inherited string | Undefined

definition get_property :: "(string \<rightharpoonup> 'a) \<Rightarrow> string \<Rightarrow> 'a property" where
  "get_property obj k =
     (case obj k of
        Some x \<Rightarrow> Own x
      | None \<Rightarrow> if k \<in> set object_prototype then Inherited k else Undefined)"

text \<open>
  Calling an inherited member as \<^verbatim>\<open>obj[k](x)\<close>, with the one argument \<open>x\<close>: the
  prototype object is no function, and \<^verbatim>\<open>__defineGetter__\<close> and \<^verbatim>\<open>__defineSetter__\<close>
  refuse a missing second argument; each of the three throws a TypeError. The other
  members return. None of them changes the object.
\<close>

definition call_throws :: "string \<Rightarrow> bool" where
  "call_throws k = (k \<in> set [''__defineGetter__'', ''__defineSetter__'', ''__proto__''])"

text \<open>
  The closure stored in \<^verbatim>\<open>finishBufferTransfers[socket.id]\<close> (lines 263-274). It
  captures the array \<^verbatim>\<open>transferredBuffers\<close>, created empty for the cycle, and the
  socket whose loop waits on the cycle's \<^verbatim>\<open>sendingAllBuffers\<close> subject.
\<close>

record tracker =
  owner :: conn_id
  transferredBuffers :: "string option list"

text \<open>The stages of the per-connection loop built by \<^verbatim>\<open>graph.expand\<close> (lines 235-310).\<close>

datatype phase =
    AwaitCache nat
  | Fetch snapshot
  | Throttle snapshot vbos
  | AwaitDelivery snapshot
  | AwaitTick snapshot nat

text \<open>
  The state of one connection's closure: \<^verbatim>\<open>clientReady\<close> is a
  \<^verbatim>\<open>ReplaySubject(1)\<close>, of which only the last value pushed matters.
\<close>

record conn =
  clientReady :: bool
  phase :: phase

text \<open>
  What \<^verbatim>\<open>resetState\<close> creates: the multicast of one animation's ticks
  (\<^verbatim>\<open>ticksMulti\<close>) and the replay subject \<^verbatim>\<open>graph\<close> fed by
  \<^verbatim>\<open>ticksMulti.take(1)\<close>.
\<close>

record session =
  connected :: bool
  graph_subscribed :: bool
  graph :: "snapshot option"

text \<open>Observers of \<^verbatim>\<open>colorTexture\<close> that subscribed before it had a value.\<close>

datatype observer =
    TextureRequest query
  | Notification conn_id vbos

datatype error = TypeError

text \<open>
  Everything the server sends or logs, in the order in which it happens.
  \<open>VboSent q b\<close> is \<^verbatim>\<open>res.send\<close> with a payload or with \<^verbatim>\<open>undefined\<close>.
  \<open>BuiltinSend q path\<close> is \<^verbatim>\<open>res.send\<close> called with the value the language has at
  \<open>path\<close> below \<^verbatim>\<open>Object.prototype\<close> (a function, an object, a string, ... or
  \<^verbatim>\<open>undefined\<close>); what Express makes of such a value, sending it or refusing it with
  an exception that the handler's \<^verbatim>\<open>catch\<close> logs, is Express's own. \<open>RouteError q e\<close>
  is Express's report of an exception that left the handler of request \<open>q\<close>.
\<close>

datatype action =
    ReadyNext conn_id bool
  | TrackerInstalled conn_id
  | VboUpdate conn_id lengths
  | AllInTransit conn_id
  | VboSent query "blob option"
  | BuiltinSend query "string list"
  | BadRequest query
  | RouteError query error
  | TextureSent query blob
  | Proxy nat nat
  | ResetAck conn_id

text \<open>
  The module-level variables. \<^verbatim>\<open>animStep\<close>, \<^verbatim>\<open>ticksMulti\<close> and \<^verbatim>\<open>graph\<close> are only
  ever assigned together, by \<^verbatim>\<open>resetState\<close>: the model numbers the animation sources
  created so far, keeps the number of the current one in \<open>animStep\<close> and the objects of
  each in \<open>sessions\<close>. \<open>img_subscriptions\<close> counts how often \<^verbatim>\<open>img\<close>, the pipeline that reads and
  compresses the texture file, has been subscribed to. \<open>activeBuffers\<close> is
  \<^verbatim>\<open>renderer.getServerBufferNames(renderConfig)\<close>, a constant of the configuration.
\<close>

record server =
  lastCompressedVbos :: "conn_id \<rightharpoonup> (string \<rightharpoonup> blob)"
  finishBufferTransfers :: "conn_id \<rightharpoonup> tracker"
  animStep :: nat
  sessions :: "nat \<rightharpoonup> session"
  colorTexture :: "texture option"
  colorTexture_observers :: "observer list"
  img_subscriptions :: nat
  conns :: "conn_id \<rightharpoonup> conn"
  activeBuffers :: "string list"
  trace :: "action list"

definition emit :: "action \<Rightarrow> server \<Rightarrow> server" where
  "emit a s = s\<lparr>trace := trace s @ [a]\<rparr>"

section \<open>The transfer tracker\<close>

text \<open>
  Lines 264-274: the name is pushed onto \<^verbatim>\<open>transferredBuffers\<close>, and the completion
  signal is raised when the array's length equals \<^verbatim>\<open>activeBuffers.length\<close>. The result
  is the closure's new state and whether \<^verbatim>\<open>sendingAllBuffers.onNext()\<close> was called.
\<close>

definition record_pull :: "nat \<Rightarrow> tracker \<Rightarrow> string option \<Rightarrow> tracker \<times> bool" where
  "record_pull k tr bufferName =
     (let tr' = tr\<lparr>transferredBuffers := transferredBuffers tr @ [bufferName]\<rparr>
      in (tr', length (transferredBuffers tr') = k))"

text \<open>The signals raised by a sequence of pulls on one tracker, one flag per pull.\<close>

fun signals :: "nat \<Rightarrow> tracker \<Rightarrow> string option list \<Rightarrow> bool list" where
  "signals k tr [] = []"
| "signals k tr (n # ns) =
     (case record_pull k tr n of (tr', fired) \<Rightarrow> fired # signals k tr' ns)"

text \<open>Line 263: the tracker of a new cycle starts with an empty array.\<close>

definition new_tracker :: "conn_id \<Rightarrow> tracker" where
  "new_tracker i = \<lparr>owner = i, transferredBuffers = []\<rparr>"

text \<open>
  \<^verbatim>\<open>sendingAllBuffers.onNext()\<close> (line 272): the subject's only observer is the loop of
  the socket that installed the tracker, waiting with \<^verbatim>\<open>take(1)\<close> (lines 298-300). It
  goes on to stage 4 and subscribes to the current \<^verbatim>\<open>ticksMulti\<close> (lines 302-307).
\<close>

definition sendingAllBuffers_onNext :: "conn_id \<Rightarrow> server \<Rightarrow> server" where
  "sendingAllBuffers_onNext i s =
     (let s1 = emit (AllInTransit i) s in
      case conns s1 i of
        None \<Rightarrow> s1
      | Some c \<Rightarrow>
          (case phase c of
             AwaitDelivery g \<Rightarrow>
               s1\<lparr>conns := (conns s1)(i \<mapsto> c\<lparr>phase := AwaitTick g (animStep s1)\<rparr>)\<rparr>
           | _ \<Rightarrow> s1))"

text \<open>The call \<^verbatim>\<open>finishBufferTransfers[id](bufferName)\<close> when the closure exists.\<close>

definition finishBufferTransfer :: "string \<Rightarrow> string option \<Rightarrow> tracker \<Rightarrow> server \<Rightarrow> server" where
  "finishBufferTransfer key bufferName tr s =
     (case record_pull (length (activeBuffers s)) tr bufferName of
        (tr', fired) \<Rightarrow>
          (let s1 = s\<lparr>finishBufferTransfers := (finishBufferTransfers s)(key \<mapsto> tr')\<rparr>
           in if fired then sendingAllBuffers_onNext (owner tr') s1 else s1))"

section \<open>GET /vbo\<close>

text \<open>
  Lines 106-122 (the handler registered first for the route; it never calls
  \<^verbatim>\<open>next\<close>, so the second registration at lines 156-172 is not reached).
  Inside \<^verbatim>\<open>try\<close>, \<^verbatim>\<open>lastCompressedVbos[id][bufferName]\<close> throws when
  \<^verbatim>\<open>lastCompressedVbos[id]\<close> is undefined; the \<^verbatim>\<open>catch\<close> logs it. When the id names
  a connection, a name that is absent from its buffers sends \<^verbatim>\<open>undefined\<close>, and a
  name that only \<^verbatim>\<open>Object.prototype\<close> has sends the inherited member. When the id is
  itself the name of an inherited member, the property \<^verbatim>\<open>bufferName\<close> of that member is
  read, which does not throw, and handed to \<^verbatim>\<open>res.send\<close>.
\<close>

definition vbo_lookup :: "query \<Rightarrow> server \<Rightarrow> server" where
  "vbo_lookup q s =
     (case get_property (lastCompressedVbos s) (prop_key (q_id q)) of
        Undefined \<Rightarrow> emit (BadRequest q) s
      | Inherited k \<Rightarrow> emit (BuiltinSend q [k, prop_key (q_buffer q)]) s
      | Own bufs \<Rightarrow>
          (case get_property bufs (prop_key (q_buffer q)) of
             Own b \<Rightarrow> emit (VboSent q (Some b)) s
           | Inherited n \<Rightarrow> emit (BuiltinSend q [n]) s
           | Undefined \<Rightarrow> emit (VboSent q None) s))"

text \<open>
  The call of the tracker follows the \<^verbatim>\<open>try\<close> statement (line 121). Calling an
  undefined entry throws a TypeError that nothing in the handler catches; an id that
  names an inherited member calls that member, which returns or throws and leaves the
  server as it is. The result is the exception that leaves the handler, if any, and the
  state reached.
\<close>

definition vbo_get :: "query \<Rightarrow> server \<Rightarrow> error option \<times> server" where
  "vbo_get q s =
     (let s1 = vbo_lookup q s in
      case get_property (finishBufferTransfers s1) (prop_key (q_id q)) of
        Undefined \<Rightarrow> (Some TypeError, s1)
      | Inherited k \<Rightarrow> (if call_throws k then Some TypeError else None, s1)
      | Own tr \<Rightarrow> (None, finishBufferTransfer (prop_key (q_id q)) (q_buffer q) tr s1))"

text \<open>
  The route as Express runs it: the router calls the handler inside a \<^verbatim>\<open>try\<close>
  statement and passes an exception to its error handler, which reports it and ends the
  response. The server goes on from the state the handler left.
\<close>

definition vbo_route :: "query \<Rightarrow> server \<Rightarrow> server" where
  "vbo_route q s =
     (case vbo_get q s of
        (None, s') \<Rightarrow> s'
      | (Some e, s') \<Rightarrow> emit (RouteError q e) s')"

section \<open>The global session\<close>

text \<open>
  \<^verbatim>\<open>resetState\<close> (lines 57-76), statement by statement: both maps are replaced by empty
  objects; \<^verbatim>\<open>driver.create()\<close> makes a new animation source; \<^verbatim>\<open>publish()\<close> wraps its
  ticks in a multicast that is not yet connected, \<^verbatim>\<open>connect()\<close> connects it;
  \<^verbatim>\<open>graph\<close> is a new, empty replay subject, subscribed to the multicast through
  \<^verbatim>\<open>take(1)\<close>. Ticks are events of their own (see \<open>tick\<close> below): none is delivered
  while \<^verbatim>\<open>resetState\<close> runs.
\<close>

definition resetState :: "server \<Rightarrow> server" where
  "resetState s =
     (let s1 = s\<lparr>lastCompressedVbos := Map.empty\<rparr>;
          s2 = s1\<lparr>finishBufferTransfers := Map.empty\<rparr>;
          s3 = s2\<lparr>animStep := Suc (animStep s2)\<rparr>;
          published = \<lparr>connected = False, graph_subscribed = False, graph = None\<rparr>;
          multicast = published\<lparr>connected := True\<rparr>;
          replay = multicast\<lparr>graph := None\<rparr>
      in s3\<lparr>sessions := (sessions s3)(animStep s3 \<mapsto> replay\<lparr>graph_subscribed := True\<rparr>)\<rparr>)"

text \<open>The postcondition of a reset that the specification names.\<close>

definition reset_post :: "server \<Rightarrow> bool" where
  "reset_post s =
     (lastCompressedVbos s = Map.empty \<and> finishBufferTransfers s = Map.empty \<and>
      sessions s (animStep s) =
        Some \<lparr>connected = True, graph_subscribed = True, graph = None\<rparr>)"

section \<open>The per-connection loop\<close>

definition set_ready :: "conn_id \<Rightarrow> bool \<Rightarrow> server \<Rightarrow> server" where
  "set_ready i b s =
     (case conns s i of
        None \<Rightarrow> s
      | Some c \<Rightarrow> emit (ReadyNext i b) (s\<lparr>conns := (conns s)(i \<mapsto> c\<lparr>clientReady := b\<rparr>)\<rparr>))"

definition set_phase :: "conn_id \<Rightarrow> phase \<Rightarrow> server \<Rightarrow> server" where
  "set_phase i p s =
     (case conns s i of
        None \<Rightarrow> s
      | Some c \<Rightarrow> s\<lparr>conns := (conns s)(i \<mapsto> c\<lparr>phase := p\<rparr>)\<rparr>)"

text \<open>Lines 282-288: the metadata picked from the fetched buffers and the texture.\<close>

definition lengths_of :: "vbos \<Rightarrow> texture \<Rightarrow> lengths" where
  "lengths_of v t =
     \<lparr>l_bufferByteLengths = bufferByteLengths v, l_elements = elements v,
      l_colorMap = (width t, height t, bytes t)\<rparr>"

text \<open>
  What an observer of \<^verbatim>\<open>colorTexture\<close> does with the value: the /texture handler sends
  its \<^verbatim>\<open>buffer\<close> (lines 181-184), stage 3 emits \<^verbatim>\<open>vbo_update\<close> (lines 280-291).
\<close>

fun answer :: "texture \<Rightarrow> observer \<Rightarrow> action" where
  "answer t (TextureRequest q) = TextureSent q (buffer t)"
| "answer t (Notification i v) = VboUpdate i (lengths_of v t)"

text \<open>
  Stage 3 (lines 256-301): a new tracker replaces the connection's entry of
  \<^verbatim>\<open>finishBufferTransfers\<close>; \<^verbatim>\<open>vbo_update\<close> is emitted from a subscription to
  \<^verbatim>\<open>colorTexture\<close>, at once when the texture is there and when it arrives otherwise;
  the loop then waits for \<^verbatim>\<open>sendingAllBuffers\<close>. The acknowledgement of
  \<^verbatim>\<open>vbo_update\<close> only sets two variables that are logged, and is left out.
\<close>

definition notify :: "conn_id \<Rightarrow> snapshot \<Rightarrow> vbos \<Rightarrow> server \<Rightarrow> server" where
  "notify i g v s =
     (let s1 = emit (TrackerInstalled i)
                 (s\<lparr>finishBufferTransfers := (finishBufferTransfers s)(i \<mapsto> new_tracker i)\<rparr>);
          s2 = (case colorTexture s1 of
                  None \<Rightarrow> s1\<lparr>colorTexture_observers :=
                                colorTexture_observers s1 @ [Notification i v]\<rparr>
                | Some t \<Rightarrow> emit (answer t (Notification i v)) s1)
      in set_phase i (AwaitDelivery g) s2)"

text \<open>Lines 250-255: the value true got through the filter; the flag is cleared.\<close>

definition proceed :: "conn_id \<Rightarrow> snapshot \<Rightarrow> vbos \<Rightarrow> server \<Rightarrow> server" where
  "proceed i g v s = notify i g v (set_ready i False s)"

text \<open>
  Stage 2 (lines 245-255): subscribing to \<^verbatim>\<open>clientReady\<close> replays its last value; a
  false one is filtered out and the loop stays subscribed.
\<close>

definition throttle :: "conn_id \<Rightarrow> snapshot \<Rightarrow> vbos \<Rightarrow> server \<Rightarrow> server" where
  "throttle i g v s =
     (case conns s i of
        None \<Rightarrow> s
      | Some c \<Rightarrow> if clientReady c then proceed i g v s else set_phase i (Throttle g v) s)"

text \<open>
  Stage 1 ends when the observable returned by \<^verbatim>\<open>driver.fetchData\<close> emits (lines
  239-244): the compressed buffers become the connection's entry of
  \<^verbatim>\<open>lastCompressedVbos\<close>.
\<close>

definition fetched :: "conn_id \<Rightarrow> vbos \<Rightarrow> server \<Rightarrow> server" where
  "fetched i v s =
     (case conns s i of
        None \<Rightarrow> s
      | Some c \<Rightarrow>
          (case phase c of
             Fetch g \<Rightarrow>
               throttle i g v (s\<lparr>lastCompressedVbos := (lastCompressedVbos s)(i \<mapsto> compressed v)\<rparr>)
           | _ \<Rightarrow> s))"

text \<open>
  The socket event \<^verbatim>\<open>received_buffers\<close> (lines 227-230): \<^verbatim>\<open>clientReady.onNext(true)\<close>
  stores the value and hands it to the observers, among them a loop waiting in stage 2.
\<close>

definition received_buffers :: "conn_id \<Rightarrow> nat \<Rightarrow> server \<Rightarrow> server" where
  "received_buffers i time s =
     (case conns s i of
        None \<Rightarrow> s
      | Some c \<Rightarrow>
          (let s1 = set_ready i True s in
           case phase c of
             Throttle g v \<Rightarrow> proceed i g v s1
           | _ \<Rightarrow> s1))"

text \<open>
  The \<^verbatim>\<open>connection\<close> event (lines 193-312): the socket gets an empty entry of
  \<^verbatim>\<open>lastCompressedVbos\<close>, \<^verbatim>\<open>clientReady\<close> is created and given the value true, and the
  loop subscribes to the current \<^verbatim>\<open>graph\<close>, which replays its value if it has one.
  (The closure is entered with the flag false for the subject that has no value yet;
  nothing reads it before line 226 pushes true.)
\<close>

definition connection :: "conn_id \<Rightarrow> server \<Rightarrow> server" where
  "connection i s =
     (let s1 = s\<lparr>lastCompressedVbos := (lastCompressedVbos s)(i \<mapsto> Map.empty)\<rparr>;
          s2 = s1\<lparr>conns := (conns s1)(i \<mapsto> \<lparr>clientReady = False, phase = AwaitCache (animStep s1)\<rparr>)\<rparr>;
          s3 = set_ready i True s2
      in case sessions s3 (animStep s3) of
           None \<Rightarrow> s3
         | Some ss \<Rightarrow>
             (case graph ss of
                None \<Rightarrow> s3
              | Some g \<Rightarrow> set_phase i (Fetch g) s3))"

text \<open>Lines 199-202.\<close>

definition disconnect :: "conn_id \<Rightarrow> server \<Rightarrow> server" where
  "disconnect i s = s\<lparr>lastCompressedVbos := (lastCompressedVbos s)(i := None)\<rparr>"

text \<open>Lines 210-213 and 215-219.\<close>

definition graph_settings :: "conn_id \<Rightarrow> nat \<Rightarrow> server \<Rightarrow> server" where
  "graph_settings i payload s = emit (Proxy (animStep s) payload) s"

definition reset_graph :: "conn_id \<Rightarrow> server \<Rightarrow> server" where
  "reset_graph i s = emit (ResetAck i) (resetState s)"

text \<open>
  A tick \<open>v\<close> of animation source \<open>e\<close>, multicast by its \<^verbatim>\<open>ticksMulti\<close>. The
  subscription \<^verbatim>\<open>ticksMulti.take(1).subscribe(graph)\<close> (line 72) passes the first tick
  only; \<^verbatim>\<open>graph\<close> hands it to the loops subscribed to it, which start stage 1 with it.
  A loop in stage 4 (lines 302-308) takes one tick from the multicast and maps it with
  \<^verbatim>\<open>_.constant(graph)\<close>, where \<^verbatim>\<open>graph\<close> is the parameter of the \<^verbatim>\<open>expand\<close> callback:
  the snapshot the iteration was called with.
\<close>

definition on_tick :: "nat \<Rightarrow> bool \<Rightarrow> snapshot \<Rightarrow> conn \<Rightarrow> conn" where
  "on_tick e first v c =
     (case phase c of
        AwaitCache e' \<Rightarrow> if e' = e \<and> first then c\<lparr>phase := Fetch v\<rparr> else c
      | AwaitTick g e' \<Rightarrow> if e' = e then c\<lparr>phase := Fetch g\<rparr> else c
      | _ \<Rightarrow> c)"

definition tick :: "nat \<Rightarrow> snapshot \<Rightarrow> server \<Rightarrow> server" where
  "tick e v s =
     (case sessions s e of
        None \<Rightarrow> s
      | Some ss \<Rightarrow>
          if connected ss then
            (let first = graph_subscribed ss;
                 ss' = (if first then ss\<lparr>graph := Some v, graph_subscribed := False\<rparr> else ss)
             in s\<lparr>sessions := (sessions s)(e \<mapsto> ss'),
                  conns := (\<lambda>i. map_option (on_tick e first v) (conns s i))\<rparr>)
          else s)"

section \<open>The texture\<close>

text \<open>
  Lines 124-152. \<^verbatim>\<open>img\<close> reads the file and deflates it; its one subscription is
  \<^verbatim>\<open>img.take(1).subscribe(colorTexture)\<close>, made when the module is loaded. The model
  covers the run in which the file is read and compressed; what an unreadable file does
  is decided inside the Rx library.
\<close>

definition load_texture :: "server \<Rightarrow> server" where
  "load_texture s =
     s\<lparr>colorTexture := None, colorTexture_observers := [],
       img_subscriptions := Suc (img_subscriptions s)\<rparr>"

definition img_value :: "blob \<Rightarrow> blob \<Rightarrow> texture" where
  "img_value raw deflated =
     \<lparr>buffer = deflated, bytes = length raw, width = 512, height = 512\<rparr>"

definition img_onNext :: "blob \<Rightarrow> blob \<Rightarrow> server \<Rightarrow> server" where
  "img_onNext raw deflated s =
     (case colorTexture s of
        Some t \<Rightarrow> s
      | None \<Rightarrow>
          foldl (\<lambda>s' ob. emit (answer (img_value raw deflated) ob) s')
            (s\<lparr>colorTexture := Some (img_value raw deflated), colorTexture_observers := []\<rparr>)
            (colorTexture_observers s))"

text \<open>
  GET /texture (lines 174-189): the handler reads \<^verbatim>\<open>req.query.texture\<close> and
  \<^verbatim>\<open>req.query.id\<close> into variables it never uses, and answers from a subscription to
  \<^verbatim>\<open>colorTexture.pluck('buffer')\<close>.
\<close>

definition texture_get :: "query \<Rightarrow> server \<Rightarrow> server" where
  "texture_get q s =
     (case colorTexture s of
        None \<Rightarrow> s\<lparr>colorTexture_observers := colorTexture_observers s @ [TextureRequest q]\<rparr>
      | Some t \<Rightarrow> emit (answer t (TextureRequest q)) s)"

section \<open>The server as a transition system\<close>

datatype event =
    Connection conn_id
  | Disconnect conn_id
  | GraphSettings conn_id nat
  | ResetGraph conn_id
  | ReceivedBuffers conn_id nat
  | Fetched conn_id vbos
  | Tick nat snapshot
  | ImgLoaded blob blob
  | GetVbo query
  | GetTexture query

text \<open>
  socket.io generates the id of every socket: a \<open>Connection\<close> event for an id that is
  in use does not occur, nor one for a name that a plain object treats specially
  (\<^verbatim>\<open>__proto__\<close>).
\<close>

fun step :: "server \<Rightarrow> event \<Rightarrow> server" where
  "step s (Connection i) = (if conns s i = None then connection i s else s)"
| "step s (Disconnect i) = disconnect i s"
| "step s (GraphSettings i p) = graph_settings i p s"
| "step s (ResetGraph i) = reset_graph i s"
| "step s (ReceivedBuffers i t) = received_buffers i t s"
| "step s (Fetched i v) = fetched i v s"
| "step s (Tick e v) = tick e v s"
| "step s (ImgLoaded raw deflated) = img_onNext raw deflated s"
| "step s (GetVbo q) = vbo_route q s"
| "step s (GetTexture q) = texture_get q s"

definition run :: "server \<Rightarrow> event list \<Rightarrow> server" where
  "run s evs = foldl step s evs"

text \<open>The state once the module is loaded: line 79, then lines 124-152.\<close>

definition boot :: "string list \<Rightarrow> server" where
  "boot names =
     load_texture (resetState
       \<lparr>lastCompressedVbos = Map.empty, finishBufferTransfers = Map.empty, animStep = 0,
        sessions = Map.empty, colorTexture = None, colorTexture_observers = [],
        img_subscriptions = 0, conns = Map.empty, activeBuffers = names, trace = []\<rparr>)"

section \<open>The specification's tracker\<close>

text \<open>
  The completion signal as the specification words it: it is raised by the pull that
  brings the number of distinct names pulled in the cycle to \<open>k\<close>.
\<close>

definition spec_signals :: "nat \<Rightarrow> string option list \<Rightarrow> bool list" where
  "spec_signals k ns =
     map (\<lambda>j. card (set (take (Suc j) ns)) = k \<and> card (set (take j ns)) < k) [0..<length ns]"

section \<open>Auxiliary notions\<close>

text \<open>Source \<open>e\<close>'s replay subject holds \<open>g\<close> and its \<^verbatim>\<open>take(1)\<close> feed has ended.\<close>

definition cached :: "server \<Rightarrow> nat \<Rightarrow> snapshot \<Rightarrow> bool" where
  "cached s e g =
     (case sessions s e of
        None \<Rightarrow> False
      | Some ss \<Rightarrow> graph ss = Some g \<and> \<not> graph_subscribed ss)"

text \<open>
  Concrete values for the examples: one expected buffer "a", a socket "X", and the
  states in which X's loop is fetching its first cycle and waiting in stage 2 of its
  second.
\<close>

definition example_vbos :: vbos where
  "example_vbos =
     \<lparr>compressed = [''a'' \<mapsto> [1, 2]], bufferByteLengths = [''a'' \<mapsto> 2],
      elements = Map.empty\<rparr>"

definition example_pull :: query where
  "example_pull = \<lparr>q_buffer = Some ''a'', q_id = Some ''X'', q_texture = None\<rparr>"

definition example_fetching :: server where
  "example_fetching = run (boot [''a'']) [ImgLoaded [0] [9], Connection ''X'', Tick 1 7]"

definition example_throttled :: server where
  "example_throttled =
     run example_fetching
       [Fetched ''X'' example_vbos, GetVbo example_pull, Tick 1 8, Fetched ''X'' example_vbos]"

section \<open>Theorems\<close>

lemmas handler_defs = emit_def set_ready_def set_phase_def notify_def proceed_def throttle_def
  fetched_def received_buffers_def connection_def disconnect_def graph_settings_def
  reset_graph_def resetState_def tick_def texture_get_def vbo_get_def vbo_lookup_def
  finishBufferTransfer_def record_pull_def sendingAllBuffers_onNext_def new_tracker_def
  vbo_route_def get_property_def

lemmas example_defs = run_def boot_def load_texture_def img_onNext_def img_value_def
  on_tick_def prop_key_def lengths_of_def example_vbos_def example_pull_def
  example_fetching_def example_throttled_def object_prototype_def call_throws_def

lemma foldl_emit:
  "foldl (\<lambda>s' ob. emit (f ob) s') s obs = s\<lparr>trace := trace s @ map f obs\<rparr>"
  by (induction obs arbitrary: s) (simp_all add: emit_def)

lemma img_onNext_loaded:
  "colorTexture s = None \<Longrightarrow>
   img_onNext raw d s =
     s\<lparr>colorTexture := Some (img_value raw d), colorTexture_observers := [],
       trace := trace s @ map (answer (img_value raw d)) (colorTexture_observers s)\<rparr>"
  by (simp add: img_onNext_def foldl_emit)

lemma img_onNext_done: "colorTexture s = Some t \<Longrightarrow> img_onNext raw d s = s"
  by (simp add: img_onNext_def)


lemma signals_length: "length (signals k tr ns) = length ns"
  by (induction ns arbitrary: tr) (simp_all add: record_pull_def Let_def)

lemma signals_count:
  "signals k tr ns =
     map (\<lambda>i. length (transferredBuffers tr) + Suc i = k) [0..<length ns]"
proof (induction ns arbitrary: tr)
  case Nil
  show ?case by simp
next
  case (Cons n ns)
  have "[0..<length (n # ns)] = 0 # map Suc [0..<length ns]"
    by (simp add: upt_conv_Cons map_Suc_upt del: upt_Suc)
  then show ?case
    by (simp add: record_pull_def Let_def Cons.IH comp_def del: upt_Suc)
qed

lemma count_upt:
  "length (filter (\<lambda>j. Suc j = k) [0..<n]) = (if 1 \<le> k \<and> k \<le> n then 1 else 0)"
  by (induction n) auto

subsection \<open>C1: completion of a cycle\<close>

text \<open>
  C1, as the specification has it: in a cycle with \<open>k\<close> expected buffer names the
  completion signal is raised exactly once, by the pull of the \<open>k\<close>-th distinct name;
  a second pull of a name does not count.

  The tracker of the source counts pulls, not names. With two expected names and the
  name "a" pulled twice, the signal is raised by the second pull, where the
  specification's tracker stays silent.
\<close>

theorem tracker_counts_duplicates:
  "signals 2 (new_tracker ''X'') [Some ''a'', Some ''a''] = [False, True] \<and>
   spec_signals 2 [Some ''a'', Some ''a''] = [False, False]"
  by (simp add: spec_signals_def new_tracker_def record_pull_def upt_conv_Cons)

text \<open>
  C1, amended: on the tracker installed for a cycle, the \<open>j\<close>-th pull (counted from 0,
  whatever names are pulled, repeated or not) raises the signal exactly when \<open>j + 1 = k\<close>.
  So the signal is raised once, by the \<open>k\<close>-th pull, if \<open>k\<close> is at least 1 and at
  least \<open>k\<close> pulls are made, and not at all otherwise.
\<close>

theorem tracker_fires_on_kth_pull:
  "signals k (new_tracker i) ns = map (\<lambda>j. Suc j = k) [0..<length ns] \<and>
   length (filter id (signals k (new_tracker i) ns)) =
     (if 1 \<le> k \<and> k \<le> length ns then 1 else 0)"
  by (simp add: signals_count new_tracker_def filter_map comp_def count_upt del: upt_Suc)

subsection \<open>C5: a pull for a connection without a tracker\<close>

lemma vbo_lookup_state: "(vbo_lookup q s)\<lparr>trace := trace s\<rparr> = s"
  by (simp add: vbo_lookup_def emit_def split: property.splits)

lemma vbo_lookup_fields:
  "finishBufferTransfers (vbo_lookup q s) = finishBufferTransfers s"
  "activeBuffers (vbo_lookup q s) = activeBuffers s"
  "conns (vbo_lookup q s) = conns s"
  by (simp_all add: vbo_lookup_def emit_def split: property.splits)

lemma vbo_get_cases:
  "vbo_get q s =
     (case finishBufferTransfers s (prop_key (q_id q)) of
        Some tr \<Rightarrow>
          (None, finishBufferTransfer (prop_key (q_id q)) (q_buffer q) tr (vbo_lookup q s))
      | None \<Rightarrow>
          (if prop_key (q_id q) \<in> set object_prototype \<and> \<not> call_throws (prop_key (q_id q))
           then None else Some TypeError,
           vbo_lookup q s))"
  by (simp add: vbo_get_def get_property_def vbo_lookup_fields Let_def split: option.splits)


lemma notify_installs_new_tracker:
  "finishBufferTransfers (notify i g v s) i = Some (new_tracker i)"
  by (simp add: handler_defs Let_def split: option.splits)

text \<open>
  C5: let a buffer be pulled for an id for which \<^verbatim>\<open>finishBufferTransfers\<close> has no
  tracker (the id never connected, its first cycle has not reached stage 3, or a reset
  has emptied the map). The bookkeeping call records nothing: the request leaves every
  variable of the server as it was, and adds to the output what the lookup sent or
  logged, followed by the report of the TypeError if the call threw; it throws unless
  the id names an inherited member that returns. The server then handles the events
  that follow.
\<close>

theorem pull_without_tracker:
  assumes "finishBufferTransfers s (prop_key (q_id q)) = None"
  shows
    "(step s (GetVbo q))\<lparr>trace := trace s\<rparr> = s \<and>
     trace (step s (GetVbo q)) =
       trace (vbo_lookup q s) @
       (case fst (vbo_get q s) of None \<Rightarrow> [] | Some e \<Rightarrow> [RouteError q e]) \<and>
     (fst (vbo_get q s) = None) =
       (prop_key (q_id q) \<in> set object_prototype \<and> \<not> call_throws (prop_key (q_id q))) \<and>
     run s (GetVbo q # evs) = run (step s (GetVbo q)) evs"
proof -
  have g: "vbo_get q s =
      (if prop_key (q_id q) \<in> set object_prototype \<and> \<not> call_throws (prop_key (q_id q))
       then None else Some TypeError, vbo_lookup q s)"
    using assms by (simp add: vbo_get_cases)
  have 1: "(step s (GetVbo q))\<lparr>trace := trace s\<rparr> = s"
    using vbo_lookup_state [where q = q and s = s] by (simp add: vbo_route_def g emit_def)
  have 2: "trace (step s (GetVbo q)) =
       trace (vbo_lookup q s) @
       (case fst (vbo_get q s) of None \<Rightarrow> [] | Some e \<Rightarrow> [RouteError q e])"
    by (simp add: vbo_route_def g emit_def)
  have 3: "(fst (vbo_get q s) = None) =
       (prop_key (q_id q) \<in> set object_prototype \<and> \<not> call_throws (prop_key (q_id q)))"
    by (simp add: g)
  have 4: "run s (GetVbo q # evs) = run (step s (GetVbo q)) evs"
    by (simp add: run_def)
  from 1 2 3 4 show ?thesis by blast
qed

theorem pull_without_tracker_witness:
  "finishBufferTransfers (step (boot [''a'']) (Connection ''X'')) ''ghost'' = None \<and>
   fst (vbo_get \<lparr>q_buffer = Some ''a'', q_id = Some ''ghost'', q_texture = None\<rparr>
          (step (boot [''a'']) (Connection ''X''))) = Some TypeError \<and>
   trace (step (step (boot [''a'']) (Connection ''X''))
            (GetVbo \<lparr>q_buffer = Some ''a'', q_id = Some ''ghost'', q_texture = None\<rparr>)) =
     [ReadyNext ''X'' True,
      BadRequest \<lparr>q_buffer = Some ''a'', q_id = Some ''ghost'', q_texture = None\<rparr>,
      RouteError \<lparr>q_buffer = Some ''a'', q_id = Some ''ghost'', q_texture = None\<rparr> TypeError] \<and>
   finishBufferTransfers (step (boot [''a'']) (Connection ''X'')) ''X'' = None \<and>
   trace (step (step (boot [''a'']) (Connection ''X'')) (GetVbo example_pull)) =
     [ReadyNext ''X'' True, VboSent example_pull None, RouteError example_pull TypeError] \<and>
   finishBufferTransfers (step (boot [''a'']) (Connection ''X'')) ''constructor'' = None \<and>
   fst (vbo_get \<lparr>q_buffer = Some ''a'', q_id = Some ''constructor'', q_texture = None\<rparr>
          (step (boot [''a'']) (Connection ''X''))) = None \<and>
   trace (step (step (boot [''a'']) (Connection ''X''))
            (GetVbo \<lparr>q_buffer = Some ''a'', q_id = Some ''constructor'', q_texture = None\<rparr>)) =
     [ReadyNext ''X'' True,
      BuiltinSend \<lparr>q_buffer = Some ''a'', q_id = Some ''constructor'', q_texture = None\<rparr>
        [''constructor'', ''a'']]"
proof -
  have g: "finishBufferTransfers (step (boot [''a'']) (Connection ''X''))
      (prop_key (q_id \<lparr>q_buffer = Some ''a'', q_id = Some ''ghost'', q_texture = None\<rparr>)) = None"
    by (simp add: example_defs handler_defs Let_def)
  show ?thesis
    using pull_without_tracker [OF g, of "[]"]
    by (simp add: example_defs handler_defs Let_def)
qed

subsection \<open>C6: bookkeeping after a failed lookup\<close>

text \<open>
  C6: whatever the lookup in \<^verbatim>\<open>lastCompressedVbos\<close> did (\<open>vbo_lookup\<close>: a payload sent,
  \<^verbatim>\<open>undefined\<close> sent, or a bad request logged), the handler goes on to the tracker of
  the requested id: the requested name is appended to its array, and the completion
  signal follows the lookup's output when the array reaches the expected length.
\<close>

theorem vbo_get_always_records:
  "finishBufferTransfers (snd (vbo_get q s)) (prop_key (q_id q)) =
     map_option (\<lambda>tr. tr\<lparr>transferredBuffers := transferredBuffers tr @ [q_buffer q]\<rparr>)
       (finishBufferTransfers s (prop_key (q_id q))) \<and>
   trace (snd (vbo_get q s)) =
     trace (vbo_lookup q s) @
     (case finishBufferTransfers s (prop_key (q_id q)) of
        None \<Rightarrow> []
      | Some tr \<Rightarrow>
          if Suc (length (transferredBuffers tr)) = length (activeBuffers s)
          then [AllInTransit (owner tr)] else [])"
proof (cases "finishBufferTransfers s (prop_key (q_id q))")
  case None
  then show ?thesis by (simp add: vbo_get_cases vbo_lookup_fields)
next
  case (Some tr)
  then show ?thesis
    by (auto simp add: vbo_get_cases vbo_lookup_fields finishBufferTransfer_def record_pull_def
        sendingAllBuffers_onNext_def emit_def Let_def split: option.splits phase.splits)
qed

theorem vbo_get_always_records_witness:
  "lastCompressedVbos (run example_fetching [Fetched ''X'' example_vbos, Disconnect ''X'']) ''X'' =
     None \<and>
   finishBufferTransfers
     (snd (vbo_get example_pull
        (run example_fetching [Fetched ''X'' example_vbos, Disconnect ''X'']))) ''X'' =
     Some \<lparr>owner = ''X'', transferredBuffers = [Some ''a'']\<rparr> \<and>
   trace (snd (vbo_get example_pull
        (run example_fetching [Fetched ''X'' example_vbos, Disconnect ''X'']))) =
     trace (run example_fetching [Fetched ''X'' example_vbos, Disconnect ''X'']) @
     [BadRequest example_pull, AllInTransit ''X'']"
  using vbo_get_always_records [of example_pull
      "run example_fetching [Fetched ''X'' example_vbos, Disconnect ''X'']"]
  by (simp add: example_defs handler_defs Let_def)

subsection \<open>C7: reset\<close>

lemma step_sessions_bounded:
  assumes "\<forall>e>animStep s. sessions s e = None"
  shows "\<forall>e>animStep (step s ev). sessions (step s ev) e = None"
proof (cases ev)
  case (ImgLoaded raw d)
  then show ?thesis using assms
    by (cases "colorTexture s") (simp_all add: img_onNext_loaded img_onNext_done)
qed (use assms in \<open>auto simp add: handler_defs Let_def split: option.splits phase.splits property.splits prod.splits\<close>)

lemma run_sessions_bounded:
  "\<forall>e>animStep s. sessions s e = None \<Longrightarrow>
   \<forall>e>animStep (run s evs). sessions (run s evs) e = None"
  unfolding run_def
proof (induction evs arbitrary: s)
  case Nil
  then show ?case by simp
next
  case (Cons ev evs)
  show ?case using Cons.IH [OF step_sessions_bounded [OF Cons.prems]] by simp
qed

lemma boot_sessions_bounded: "\<forall>e>animStep (boot names). sessions (boot names) e = None"
  by (simp add: boot_def load_texture_def resetState_def Let_def)

text \<open>
  C7: after every call of \<^verbatim>\<open>resetState\<close> both maps are empty and the current animation
  source has a connected multicast and an empty replay subject subscribed to it; a
  second call gives the same postcondition. The source is a new one: its number is the
  old number plus one, which no source has in any state the server can reach.
\<close>

theorem resetState_postcondition:
  "reset_post (resetState s) \<and> reset_post (resetState (resetState s)) \<and>
   animStep (resetState s) = Suc (animStep s) \<and>
   sessions (run (boot names) evs) (animStep (resetState (run (boot names) evs))) = None"
  using run_sessions_bounded [OF boot_sessions_bounded, of names evs]
  by (simp add: reset_post_def resetState_def Let_def)

subsection \<open>C8 and C10: the texture\<close>

lemma step_img_subscriptions: "img_subscriptions (step s ev) = img_subscriptions s"
proof (cases ev)
  case (ImgLoaded raw d)
  then show ?thesis by (cases "colorTexture s") (simp_all add: img_onNext_loaded img_onNext_done)
qed (auto simp add: handler_defs Let_def split: option.splits phase.splits property.splits prod.splits)

lemma run_img_subscriptions: "img_subscriptions (run s evs) = img_subscriptions s"
  unfolding run_def by (induction evs arbitrary: s) (simp_all add: step_img_subscriptions)

lemma step_colorTexture: "colorTexture s = Some t \<Longrightarrow> colorTexture (step s ev) = Some t"
proof (cases ev)
  case (ImgLoaded raw d)
  assume "colorTexture s = Some t"
  with ImgLoaded show ?thesis by (simp add: img_onNext_done)
qed (auto simp add: handler_defs Let_def split: option.splits phase.splits property.splits prod.splits)

lemma run_colorTexture: "colorTexture s = Some t \<Longrightarrow> colorTexture (run s evs) = Some t"
  unfolding run_def by (induction evs arbitrary: s) (simp_all add: step_colorTexture)

lemma run_GetTexture_pending:
  "colorTexture s = None \<Longrightarrow>
   run s (map GetTexture qs) =
     s\<lparr>colorTexture_observers := colorTexture_observers s @ map TextureRequest qs\<rparr>"
  unfolding run_def by (induction qs arbitrary: s) (simp_all add: texture_get_def)

text \<open>
  C8: whatever events the server handles after it has been loaded (connections, texture
  requests, resets, ...), the pipeline that reads and compresses the texture has been
  started exactly once. Texture requests made while its result is outstanding wait for
  it, and when it arrives each of them is answered with the one compressed payload,
  after the observers that were waiting before them.
\<close>

theorem texture_computed_once:
  "img_subscriptions (run (boot names) evs) = 1 \<and>
   (colorTexture s = None \<longrightarrow>
      trace (img_onNext raw d (run s (map GetTexture qs))) =
        trace s @ map (answer (img_value raw d)) (colorTexture_observers s) @
        map (\<lambda>q. TextureSent q d) qs)"
  by (simp add: run_img_subscriptions boot_def load_texture_def resetState_def Let_def
      run_GetTexture_pending img_onNext_loaded img_value_def comp_def)

theorem texture_computed_once_witness:
  "colorTexture (boot [''a'']) = None \<and>
   trace (img_onNext [0] [9]
       (run (boot [''a''])
          (map GetTexture
            [\<lparr>q_buffer = None, q_id = Some ''X'', q_texture = Some ''colorMap''\<rparr>,
             \<lparr>q_buffer = None, q_id = Some ''Y'', q_texture = None\<rparr>]))) =
     [TextureSent \<lparr>q_buffer = None, q_id = Some ''X'', q_texture = Some ''colorMap''\<rparr> [9],
      TextureSent \<lparr>q_buffer = None, q_id = Some ''Y'', q_texture = None\<rparr> [9]]"
  using texture_computed_once [of "[''a'']" "[]" "boot [''a'']" "[0]" "[9]"
      "[\<lparr>q_buffer = None, q_id = Some ''X'', q_texture = Some ''colorMap''\<rparr>,
        \<lparr>q_buffer = None, q_id = Some ''Y'', q_texture = None\<rparr>]"]
  by (simp add: boot_def load_texture_def resetState_def Let_def)

text \<open>
  C10: once \<^verbatim>\<open>colorTexture\<close> holds the texture, every later texture request, after any
  events in between and whatever its \<^verbatim>\<open>texture\<close> and \<^verbatim>\<open>id\<close> parameters are, is
  answered at once with that texture's compressed buffer and changes nothing else.
\<close>

theorem texture_get_ignores_parameters:
  assumes "colorTexture s = Some t"
  shows "texture_get q (run s evs) = emit (TextureSent q (buffer t)) (run s evs)"
  using run_colorTexture [OF assms, of evs] by (simp add: texture_get_def)

theorem texture_get_ignores_parameters_witness:
  "colorTexture (img_onNext [0] [9] (boot [''a''])) = Some (img_value [0] [9]) \<and>
   trace (texture_get \<lparr>q_buffer = None, q_id = None, q_texture = Some ''nonesuch''\<rparr>
            (run (img_onNext [0] [9] (boot [''a''])) [Connection ''X''])) =
     [ReadyNext ''X'' True,
      TextureSent \<lparr>q_buffer = None, q_id = None, q_texture = Some ''nonesuch''\<rparr> [9]]"
  using texture_get_ignores_parameters [of "img_onNext [0] [9] (boot [''a''])"
      "img_value [0] [9]" "\<lparr>q_buffer = None, q_id = None, q_texture = Some ''nonesuch''\<rparr>"
      "[Connection ''X'']"]
  by (simp add: example_defs handler_defs Let_def)

subsection \<open>C9: the readiness flag\<close>

text \<open>
  C9: a new connection has \<^verbatim>\<open>clientReady\<close> true. The handler of
  \<^verbatim>\<open>received_buffers\<close> first pushes true into \<^verbatim>\<open>clientReady\<close>; the flag is true
  when the handler returns, unless the connection's loop was waiting for it in stage 2,
  which then takes the value and clears the flag (C2).
\<close>

theorem readiness_set:
  "map_option clientReady (conns (connection i s) i) = Some True \<and>
   (conns s i = Some c \<longrightarrow>
      (\<exists>rest. trace (received_buffers i t s) = trace s @ ReadyNext i True # rest) \<and>
      map_option clientReady (conns (received_buffers i t s) i) =
        Some (case phase c of Throttle g v \<Rightarrow> False | _ \<Rightarrow> True))"
  by (auto simp add: handler_defs Let_def split: option.splits phase.splits property.splits prod.splits)

theorem readiness_set_witness:
  "conns (run example_fetching [Fetched ''X'' example_vbos]) ''X'' =
     Some \<lparr>clientReady = False, phase = AwaitDelivery 7\<rparr> \<and>
   trace (received_buffers ''X'' 40 (run example_fetching [Fetched ''X'' example_vbos])) =
     trace (run example_fetching [Fetched ''X'' example_vbos]) @ [ReadyNext ''X'' True] \<and>
   map_option clientReady
     (conns (received_buffers ''X'' 40 (run example_fetching [Fetched ''X'' example_vbos])) ''X'') =
     Some True"
  using readiness_set [of "''X''" "run example_fetching [Fetched ''X'' example_vbos]"
      "\<lparr>clientReady = False, phase = AwaitDelivery 7\<rparr>" 40]
  by (simp add: example_defs handler_defs Let_def)

subsection \<open>C2: the throttle\<close>

lemma throttle_ready:
  assumes "conns s i = Some c" "clientReady c"
  shows "conns (throttle i g v s) i = Some (c\<lparr>clientReady := False, phase := AwaitDelivery g\<rparr>)"
    and "trace (throttle i g v s) =
           trace s @ [ReadyNext i False, TrackerInstalled i] @
           (case colorTexture s of None \<Rightarrow> [] | Some t \<Rightarrow> [VboUpdate i (lengths_of v t)])"
    and "colorTexture_observers (throttle i g v s) =
           colorTexture_observers s @
           (case colorTexture s of None \<Rightarrow> [Notification i v] | Some t \<Rightarrow> [])"
  using assms by (auto simp add: handler_defs Let_def split: option.splits phase.splits property.splits prod.splits)

lemma throttle_not_ready:
  assumes "conns s i = Some c" "\<not> clientReady c"
  shows "conns (throttle i g v s) i = Some (c\<lparr>phase := Throttle g v\<rparr>)"
    and "trace (throttle i g v s) = trace s"
    and "colorTexture_observers (throttle i g v s) = colorTexture_observers s"
  using assms by (auto simp add: handler_defs Let_def split: option.splits phase.splits property.splits prod.splits)

lemma throttle_waits:
  assumes "conns s i = Some c" "phase c = Throttle g v" "\<forall>t. ev \<noteq> ReceivedBuffers i t"
  shows "conns (step s ev) i = Some c"
proof (cases ev)
  case (ImgLoaded raw d)
  then show ?thesis using assms
    by (cases "colorTexture s") (simp_all add: img_onNext_loaded img_onNext_done)
next
  case (Tick e x)
  then show ?thesis using assms
    by (auto simp add: handler_defs on_tick_def Let_def split: option.splits phase.splits property.splits prod.splits)
qed (use assms in \<open>auto simp add: handler_defs Let_def split: option.splits phase.splits property.splits prod.splits\<close>)

lemma throttle_released:
  assumes "conns s i = Some c" "phase c = Throttle g v"
  shows "conns (received_buffers i t s) i =
           Some (c\<lparr>clientReady := False, phase := AwaitDelivery g\<rparr>)"
    and "trace (received_buffers i t s) =
           trace s @ [ReadyNext i True, ReadyNext i False, TrackerInstalled i] @
           (case colorTexture s of None \<Rightarrow> [] | Some tx \<Rightarrow> [VboUpdate i (lengths_of v tx)])"
  using assms by (auto simp add: handler_defs Let_def split: option.splits phase.splits property.splits prod.splits)

text \<open>
  C2: when the loop of connection \<open>i\<close> enters stage 2 (\<open>throttle\<close>) with the fetched
  buffers \<open>v\<close>:
  \<^item> if \<^verbatim>\<open>clientReady\<close> is true it goes on at once; the flag is cleared, and the push
    of false comes before the installation of the tracker and the \<^verbatim>\<open>vbo_update\<close> of
    the cycle (which is emitted at once if the texture is there, and waits for the
    texture otherwise);
  \<^item> if \<^verbatim>\<open>clientReady\<close> is false it waits: nothing is sent, and so a cycle that
    enters stage 2 after another has gone on does not go on as well;
  \<^item> while it waits, no event but \<^verbatim>\<open>received_buffers\<close> on this connection changes
    the connection's state;
  \<^item> \<^verbatim>\<open>received_buffers\<close> pushes true, the waiting loop goes on and clears the flag
    before the tracker and the \<^verbatim>\<open>vbo_update\<close>.
\<close>

theorem throttle_gate:
  assumes "conns s i = Some c"
  shows
    "(clientReady c \<longrightarrow>
        conns (throttle i g v s) i = Some (c\<lparr>clientReady := False, phase := AwaitDelivery g\<rparr>) \<and>
        trace (throttle i g v s) =
          trace s @ [ReadyNext i False, TrackerInstalled i] @
          (case colorTexture s of None \<Rightarrow> [] | Some t \<Rightarrow> [VboUpdate i (lengths_of v t)]) \<and>
        colorTexture_observers (throttle i g v s) =
          colorTexture_observers s @
          (case colorTexture s of None \<Rightarrow> [Notification i v] | Some t \<Rightarrow> [])) \<and>
     (\<not> clientReady c \<longrightarrow>
        conns (throttle i g v s) i = Some (c\<lparr>phase := Throttle g v\<rparr>) \<and>
        trace (throttle i g v s) = trace s \<and>
        colorTexture_observers (throttle i g v s) = colorTexture_observers s) \<and>
     (phase c = Throttle g v \<longrightarrow> (\<forall>t. ev \<noteq> ReceivedBuffers i t) \<longrightarrow>
        conns (step s ev) i = Some c) \<and>
     (phase c = Throttle g v \<longrightarrow>
        conns (received_buffers i tm s) i =
          Some (c\<lparr>clientReady := False, phase := AwaitDelivery g\<rparr>) \<and>
        trace (received_buffers i tm s) =
          trace s @ [ReadyNext i True, ReadyNext i False, TrackerInstalled i] @
          (case colorTexture s of None \<Rightarrow> [] | Some tx \<Rightarrow> [VboUpdate i (lengths_of v tx)]))"
  using throttle_ready [OF assms, of g v] throttle_not_ready [OF assms, of g v]
    throttle_waits [OF assms, of g v ev] throttle_released [OF assms, of g v tm]
  by blast

theorem throttle_gate_witness:
  "conns example_fetching ''X'' = Some \<lparr>clientReady = True, phase = Fetch 7\<rparr> \<and>
   conns (throttle ''X'' 7 example_vbos example_fetching) ''X'' =
     Some \<lparr>clientReady = False, phase = AwaitDelivery 7\<rparr> \<and>
   trace (throttle ''X'' 7 example_vbos example_fetching) =
     trace example_fetching @
     [ReadyNext ''X'' False, TrackerInstalled ''X'',
      VboUpdate ''X'' (lengths_of example_vbos (img_value [0] [9]))] \<and>
   conns example_throttled ''X'' = Some \<lparr>clientReady = False, phase = Throttle 7 example_vbos\<rparr> \<and>
   conns (throttle ''X'' 7 example_vbos example_throttled) ''X'' =
     Some \<lparr>clientReady = False, phase = Throttle 7 example_vbos\<rparr> \<and>
   trace (throttle ''X'' 7 example_vbos example_throttled) = trace example_throttled \<and>
   conns (step example_throttled (Tick 1 9)) ''X'' =
     Some \<lparr>clientReady = False, phase = Throttle 7 example_vbos\<rparr> \<and>
   conns (received_buffers ''X'' 40 example_throttled) ''X'' =
     Some \<lparr>clientReady = False, phase = AwaitDelivery 7\<rparr> \<and>
   trace (received_buffers ''X'' 40 example_throttled) =
     trace example_throttled @
     [ReadyNext ''X'' True, ReadyNext ''X'' False, TrackerInstalled ''X'',
      VboUpdate ''X'' (lengths_of example_vbos (img_value [0] [9]))]"
proof -
  have f: "conns example_fetching ''X'' = Some \<lparr>clientReady = True, phase = Fetch 7\<rparr>"
    by (simp add: example_defs handler_defs Let_def)
  have t: "conns example_throttled ''X'' =
      Some \<lparr>clientReady = False, phase = Throttle 7 example_vbos\<rparr>"
    by (simp add: example_defs handler_defs Let_def)
  have cf: "colorTexture example_fetching = Some (img_value [0] [9])"
    by (simp add: example_defs handler_defs Let_def)
  have ct: "colorTexture example_throttled = Some (img_value [0] [9])"
    by (simp add: example_defs handler_defs Let_def)
  show ?thesis
    using throttle_gate [OF f, of 7 example_vbos "Tick 1 9" 40]
      throttle_gate [OF t, of 7 example_vbos "Tick 1 9" 40] f t cf ct
    by simp
qed

subsection \<open>C3: the snapshot of the next cycle\<close>

text \<open>
  C3 says that the loop, once the tick it waits for in stage 4 has been delivered, starts
  the next cycle with that tick. In the source the tick is replaced by the snapshot the
  finished cycle was run with: connection X runs its first cycle with snapshot 7, the
  next tick is 8, and the second cycle fetches snapshot 7 again.
\<close>

theorem next_cycle_keeps_snapshot:
  "map_option phase (conns (run example_fetching
       [Fetched ''X'' example_vbos, GetVbo example_pull]) ''X'') = Some (AwaitTick 7 1) \<and>
   map_option phase (conns (run example_fetching
       [Fetched ''X'' example_vbos, GetVbo example_pull, Tick 1 8]) ''X'') = Some (Fetch 7) \<and>
   map_option phase (conns (run example_fetching
       [Fetched ''X'' example_vbos, GetVbo example_pull, Tick 1 8]) ''X'') \<noteq> Some (Fetch 8)"
  by (simp add: example_defs handler_defs Let_def)

text \<open>
  C3, amended: when the multicast the loop subscribed to in stage 4 delivers a tick, the
  loop enters stage 1 again with the snapshot of the cycle it has just finished; the
  tick's own value is not used.
\<close>

theorem tick_restarts_with_same_snapshot:
  assumes "conns s i = Some c" "phase c = AwaitTick g e" "sessions s e = Some ss" "connected ss"
  shows "conns (tick e v s) i = Some (c\<lparr>phase := Fetch g\<rparr>)"
  using assms by (simp add: tick_def on_tick_def Let_def)

theorem tick_restarts_with_same_snapshot_witness:
  "conns (run example_fetching [Fetched ''X'' example_vbos, GetVbo example_pull]) ''X'' =
     Some \<lparr>clientReady = False, phase = AwaitTick 7 1\<rparr> \<and>
   sessions (run example_fetching [Fetched ''X'' example_vbos, GetVbo example_pull]) 1 =
     Some \<lparr>connected = True, graph_subscribed = False, graph = Some 7\<rparr> \<and>
   conns (tick 1 8 (run example_fetching [Fetched ''X'' example_vbos, GetVbo example_pull])) ''X'' =
     Some \<lparr>clientReady = False, phase = Fetch 7\<rparr>"
proof -
  let ?s = "run example_fetching [Fetched ''X'' example_vbos, GetVbo example_pull]"
  have c: "conns ?s ''X'' = Some \<lparr>clientReady = False, phase = AwaitTick 7 1\<rparr>"
    by (simp add: example_defs handler_defs Let_def)
  have p: "phase \<lparr>clientReady = False, phase = AwaitTick 7 1\<rparr> = AwaitTick 7 1" by simp
  have ss: "sessions ?s 1 = Some \<lparr>connected = True, graph_subscribed = False, graph = Some 7\<rparr>"
    by (simp add: example_defs handler_defs Let_def)
  have k: "connected \<lparr>connected = True, graph_subscribed = False, graph = Some 7\<rparr>" by simp
  show ?thesis using tick_restarts_with_same_snapshot [OF c p ss k, of 8] c ss by simp
qed

subsection \<open>C4: what the cache replays\<close>

text \<open>
  C4 says that a subscriber attaching after ticks have been produced is given the most
  recent tick at once. The replay subject is fed through \<^verbatim>\<open>take(1)\<close>: after the ticks
  7 and 8 a new connection is given 7.
\<close>

theorem late_subscriber_gets_first_tick:
  "map_option phase (conns (run (boot [''a'']) [Tick 1 7, Tick 1 8, Connection ''X'']) ''X'') =
     Some (Fetch 7) \<and>
   map_option phase (conns (run (boot [''a'']) [Tick 1 7, Tick 1 8, Connection ''X'']) ''X'') \<noteq>
     Some (Fetch 8)"
  by (simp add: example_defs handler_defs Let_def)

lemma step_animStep: "\<forall>j. ev \<noteq> ResetGraph j \<Longrightarrow> animStep (step s ev) = animStep s"
proof (cases ev)
  case (ImgLoaded raw d)
  then show ?thesis by (cases "colorTexture s") (simp_all add: img_onNext_loaded img_onNext_done)
qed (auto simp add: handler_defs Let_def split: option.splits phase.splits property.splits prod.splits)

lemma step_cached:
  assumes "cached s e g" "\<forall>j. ev \<noteq> ResetGraph j"
  shows "cached (step s ev) e g"
proof (cases ev)
  case (ImgLoaded raw d)
  then show ?thesis using assms
    by (cases "colorTexture s") (simp_all add: img_onNext_loaded img_onNext_done cached_def)
qed (use assms in \<open>auto simp add: cached_def handler_defs Let_def split: option.splits phase.splits property.splits prod.splits\<close>)

lemma run_cached:
  assumes "cached s (animStep s) g" "\<forall>ev\<in>set evs. \<forall>j. ev \<noteq> ResetGraph j"
  shows "cached (run s evs) (animStep s) g \<and> animStep (run s evs) = animStep s"
  using assms unfolding run_def
proof (induction evs arbitrary: s)
  case Nil
  then show ?case by simp
next
  case (Cons ev evs)
  have a: "animStep (step s ev) = animStep s" using Cons.prems(2) by (simp add: step_animStep)
  have c: "cached (step s ev) (animStep (step s ev)) g"
    using Cons.prems step_cached [of s "animStep s" g ev] a by simp
  show ?case using Cons.IH [OF c] Cons.prems(2) a by simp
qed

lemma tick_first:
  assumes "sessions s e = Some ss" "connected ss" "graph_subscribed ss"
  shows "cached (tick e v s) e v" "animStep (tick e v s) = animStep s"
  using assms by (simp_all add: tick_def cached_def Let_def)

lemma connection_cached:
  assumes "cached s (animStep s) g"
  shows "conns (connection i s) i = Some \<lparr>clientReady = True, phase = Fetch g\<rparr>"
  using assms by (auto simp add: cached_def handler_defs Let_def split: option.splits)

text \<open>
  C4, amended: let no tick of the current animation source have been delivered yet, let
  \<open>v\<close> be its first tick, and let any events but a reset follow, further ticks among
  them. A connection made then is given \<open>v\<close>, the first tick of the epoch, at once: its
  loop is in stage 1 with \<open>v\<close> when the \<^verbatim>\<open>connection\<close> handler returns.
\<close>

theorem cache_replay:
  assumes "sessions s (animStep s) = Some ss" "connected ss" "graph_subscribed ss"
    and "\<forall>ev\<in>set evs. \<forall>j. ev \<noteq> ResetGraph j"
    and "conns (run s (Tick (animStep s) v # evs)) i = None"
  shows "conns (run s (Tick (animStep s) v # evs @ [Connection i])) i =
           Some \<lparr>clientReady = True, phase = Fetch v\<rparr>"
proof -
  let ?s1 = "tick (animStep s) v s"
  have c1: "cached ?s1 (animStep ?s1) v"
    using tick_first [OF assms(1-3)] by simp
  have r: "cached (run ?s1 evs) (animStep ?s1) v \<and> animStep (run ?s1 evs) = animStep ?s1"
    using run_cached [OF c1 assms(4)] .
  have e: "run s (Tick (animStep s) v # evs) = run ?s1 evs" by (simp add: run_def)
  have "conns (connection i (run ?s1 evs)) i = Some \<lparr>clientReady = True, phase = Fetch v\<rparr>"
    using connection_cached [of "run ?s1 evs" v i] r by simp
  then show ?thesis using assms(5) e by (simp add: run_def)
qed

theorem cache_replay_witness:
  "sessions (boot [''a'']) (animStep (boot [''a''])) =
     Some \<lparr>connected = True, graph_subscribed = True, graph = None\<rparr> \<and>
   conns (run (boot [''a'']) [Tick 1 7, Tick 1 8, Tick 1 9]) ''X'' = None \<and>
   conns (run (boot [''a'']) [Tick 1 7, Tick 1 8, Tick 1 9, Connection ''X'']) ''X'' =
     Some \<lparr>clientReady = True, phase = Fetch 7\<rparr>"
proof -
  have a: "animStep (boot [''a'']) = 1"
    by (simp add: example_defs handler_defs Let_def)
  have ss: "sessions (boot [''a'']) (animStep (boot [''a''])) =
      Some \<lparr>connected = True, graph_subscribed = True, graph = None\<rparr>"
    by (simp add: example_defs handler_defs Let_def)
  have k: "connected \<lparr>connected = True, graph_subscribed = True, graph = None\<rparr>"
    "graph_subscribed \<lparr>connected = True, graph_subscribed = True, graph = None\<rparr>"
    by simp_all
  have nr: "\<forall>ev\<in>set [Tick 1 8, Tick 1 9]. \<forall>j. ev \<noteq> ResetGraph j" by simp
  have n: "conns (run (boot [''a'']) (Tick (animStep (boot [''a''])) 7 # [Tick 1 8, Tick 1 9])) ''X''
      = None"
    by (simp add: example_defs handler_defs Let_def)
  show ?thesis using cache_replay [OF ss k nr n] ss n a by simp
qed

end
